theory Spec2Isabelle
  imports Main "HOL-Library.Sublist"
begin

section \<open>JavaScript values, strings and thrown errors\<close>

text \<open>
  The identifiers handled by the cleanup helpers come out of JSON response bodies
  (\<^verbatim>\<open>data._id\<close>, \<^verbatim>\<open>data.aposDocId\<close>): each is a string, or it is missing.
  Strings are character lists; the identifiers of the content store are ASCII.
\<close>

datatype jsval = JUndefined | JNull | JStr string

text \<open>JavaScript truthiness: \<^verbatim>\<open>undefined\<close>, \<^verbatim>\<open>null\<close> and \<^verbatim>\<open>''\<close> are falsy.\<close>

fun truthy :: "jsval \<Rightarrow> bool" where
  "truthy JUndefined = False"
| "truthy JNull = False"
| "truthy (JStr s) = (s \<noteq> [])"

text \<open>\<^verbatim>\<open>a || b\<close>\<close>

definition js_or :: "jsval \<Rightarrow> jsval \<Rightarrow> jsval" where
  "js_or a b = (if truthy a then a else b)"

text \<open>\<^verbatim>\<open>s.includes(pat)\<close>: \<open>pat\<close> occurs somewhere in \<open>s\<close>.\<close>

fun js_includes :: "string \<Rightarrow> string \<Rightarrow> bool" where
  "js_includes [] pat = (pat = [])"
| "js_includes (c # cs) pat = (prefix pat (c # cs) \<or> js_includes cs pat)"

text \<open>
  \<^verbatim>\<open>s.replace(pat, rep)\<close> with a string pattern: only the first (leftmost) occurrence
  is replaced; a string without the pattern comes back unchanged.
\<close>

fun js_replace :: "string \<Rightarrow> string \<Rightarrow> string \<Rightarrow> string" where
  "js_replace [] pat rep = (if pat = [] then rep else [])"
| "js_replace (c # cs) pat rep =
     (if prefix pat (c # cs) then rep @ drop (length pat) (c # cs)
      else c # js_replace cs pat rep)"

text \<open>
  \<^verbatim>\<open>s.split(sep)[0]\<close> for a one-character separator: everything before the first
  separator, the whole string when there is none.
\<close>

definition js_split_first :: "char \<Rightarrow> string \<Rightarrow> string" where
  "js_split_first sep s = takeWhile (\<lambda>c. c \<noteq> sep) s"

text \<open>
  \<^verbatim>\<open>[...new Set(xs)]\<close>: the constructor adds the elements one by one, an element that
  is already in the set is skipped, and the spread reads them in insertion order.
\<close>

definition set_add :: "'a list \<Rightarrow> 'a \<Rightarrow> 'a list" where
  "set_add seen x = (if x \<in> set seen then seen else seen @ [x])"

definition new_Set :: "'a list \<Rightarrow> 'a list" where
  "new_Set xs = foldl set_add [] xs"

text \<open>
  A rejected API call throws an error object. The helpers read two things from it:
  \<^verbatim>\<open>e.response?.status\<close> (absent when there was no HTTP response) and \<^verbatim>\<open>e.message\<close>.
\<close>

datatype js_error = JsError (response_status: "nat option") (err_message: string)

text \<open>
  One API call either throws (\<open>Inl\<close>) or resolves to a response, of which only
  \<^verbatim>\<open>status\<close> is read (\<open>Inr\<close>). The call may change the content store \<open>'s\<close>.
\<close>

type_synonym outcome = "js_error + nat"

type_synonym 's operation = "jsval \<Rightarrow> 's \<Rightarrow> outcome \<times> 's"

text \<open>\<^verbatim>\<open>e.response?.status || alt\<close>, as it is interpolated into a log line.\<close>

datatype reason = Status nat | Message string

definition status_or :: "js_error \<Rightarrow> string \<Rightarrow> reason" where
  "status_or e alt =
     (case response_status e of
        None \<Rightarrow> Message alt
      | Some n \<Rightarrow> if n = 0 then Message alt else Status n)"

section \<open>Media cleanup: \<^verbatim>\<open>safeDeleteDocument\<close>\<close>

text \<open>
  What a run does to the outside world, in order: the API calls with what they
  answered, the pauses, and the lines written to the console.
\<close>

datatype detail =
    Detail_id jsval
  | Detail_already_gone jsval
  | Detail_message string

datatype media_event =
    Unpublish_call jsval outcome
  | Log_unpublished string
  | Wait nat
  | Log_not_published
  | Log_unpublish_failed reason
  | Delete_call jsval outcome
  | LogTest string bool detail
  | Log_delete_attempt_failed jsval reason
  | Log_may_be_protected string

text \<open>The optional pre-step (lines 82-88): every throw of the call is caught here.\<close>

fun unpublish_step ::
  "string \<Rightarrow> 's operation option \<Rightarrow> jsval \<Rightarrow> 's \<Rightarrow> 's \<times> media_event list" where
  "unpublish_step kind None itemId w = (w, [])"
| "unpublish_step kind (Some unpublishMethod) itemId w =
     (case unpublishMethod itemId w of
        (Inr st, w') \<Rightarrow>
          (w', [Unpublish_call itemId (Inr st), Log_unpublished kind, Wait 400])
      | (Inl e, w') \<Rightarrow>
          (w', [Unpublish_call itemId (Inl e),
                if response_status e = Some 404 then Log_not_published
                else Log_unpublish_failed (status_or e [])]))"

definition tryIds :: "string \<Rightarrow> string list" where
  "tryIds itemId =
     [itemId,
      js_replace itemId '':en:published'' '':en:draft'',
      js_split_first CHR '':'' itemId]"

text \<open>
  The loop over the candidates (lines 90-98). \<open>Some b\<close> is a \<^verbatim>\<open>return b\<close> from inside
  the loop, \<open>None\<close> is the loop running to its end. A response whose status is not 200
  neither returns nor logs; a throw other than a 404 is logged and the loop goes on.
\<close>

fun delete_loop ::
  "string \<Rightarrow> 's operation \<Rightarrow> jsval list \<Rightarrow> 's \<Rightarrow> bool option \<times> 's \<times> media_event list" where
  "delete_loop kind deleteMethod [] w = (None, w, [])"
| "delete_loop kind deleteMethod (i # ids) w =
     (case deleteMethod i w of
        (Inr st, w') \<Rightarrow>
          if st = 200
          then (Some True, w', [Delete_call i (Inr st), LogTest kind True (Detail_id i)])
          else (case delete_loop kind deleteMethod ids w' of
                  (r, w'', evs) \<Rightarrow> (r, w'', Delete_call i (Inr st) # evs))
      | (Inl e, w') \<Rightarrow>
          if response_status e = Some 404
          then (Some True, w',
                [Delete_call i (Inl e), LogTest kind True (Detail_already_gone i)])
          else (case delete_loop kind deleteMethod ids w' of
                  (r, w'', evs) \<Rightarrow>
                    (r, w'',
                     Delete_call i (Inl e)
                       # Log_delete_attempt_failed i (status_or e (err_message e))
                       # evs)))"

text \<open>
  \<^verbatim>\<open>safeDeleteDocument(itemId, kind, deleteMethod, unpublishMethod)\<close>. The result is
  \<open>Inr b\<close> for \<^verbatim>\<open>return b\<close> and \<open>Inl e\<close> for an error that leaves the function. With a
  string \<open>itemId\<close> nothing between the outer \<^verbatim>\<open>try\<close> and the loop throws, so the outer
  \<^verbatim>\<open>catch\<close> has no path into it.
\<close>

fun safeDeleteDocument ::
  "jsval \<Rightarrow> string \<Rightarrow> 's operation \<Rightarrow> 's operation option \<Rightarrow> 's
     \<Rightarrow> (js_error + bool) \<times> 's \<times> media_event list" where
  "safeDeleteDocument JUndefined kind deleteMethod unpublishMethod w = (Inr False, w, [])"
| "safeDeleteDocument JNull kind deleteMethod unpublishMethod w = (Inr False, w, [])"
| "safeDeleteDocument (JStr s) kind deleteMethod unpublishMethod w =
     (if \<not> truthy (JStr s) then (Inr False, w, [])
      else
        (case unpublish_step kind unpublishMethod (JStr s) w of
           (w1, evs1) \<Rightarrow>
             (case delete_loop kind deleteMethod (map JStr (new_Set (tryIds s))) w1 of
                (Some b, w2, evs2) \<Rightarrow> (Inr b, w2, evs1 @ evs2)
              | (None, w2, evs2) \<Rightarrow>
                  (Inr False, w2, evs1 @ evs2 @ [Log_may_be_protected kind]))))"

text \<open>
  The cleanup of \<^verbatim>\<open>runMediaTests\<close> (test 15): the created items, newest first, each
  retired through \<^verbatim>\<open>safeDeleteDocument(it.aposDocId || it.id, it.type, del, unpub)\<close>
  with the methods of its type, then a pause. The loop has no \<^verbatim>\<open>try\<close> of its own: an
  error leaving \<^verbatim>\<open>safeDeleteDocument\<close> would end it.
\<close>

datatype kind = Image | File | ImageTag | FileTag

fun kind_name :: "kind \<Rightarrow> string" where
  "kind_name Image = ''image''"
| "kind_name File = ''file''"
| "kind_name ImageTag = ''imageTag''"
| "kind_name FileTag = ''fileTag''"

record created_item =
  item_id :: jsval
  item_aposDocId :: jsval
  item_type :: kind

record 's media_api =
  imageDeleteById :: "'s operation"
  imageUnpublishById :: "'s operation"
  fileDeleteById :: "'s operation"
  fileUnpublishById :: "'s operation"
  imageTagDeleteById :: "'s operation"
  imageTagUnpublishById :: "'s operation"
  fileTagDeleteById :: "'s operation"
  fileTagUnpublishById :: "'s operation"

fun del_of :: "'s media_api \<Rightarrow> kind \<Rightarrow> 's operation" where
  "del_of api Image = imageDeleteById api"
| "del_of api File = fileDeleteById api"
| "del_of api ImageTag = imageTagDeleteById api"
| "del_of api FileTag = fileTagDeleteById api"

fun unpub_of :: "'s media_api \<Rightarrow> kind \<Rightarrow> 's operation" where
  "unpub_of api Image = imageUnpublishById api"
| "unpub_of api File = fileUnpublishById api"
| "unpub_of api ImageTag = imageTagUnpublishById api"
| "unpub_of api FileTag = fileTagUnpublishById api"

definition cleanup_item ::
  "'s media_api \<Rightarrow> created_item \<Rightarrow> 's \<Rightarrow> (js_error + bool) \<times> 's \<times> media_event list" where
  "cleanup_item api it w =
     safeDeleteDocument (js_or (item_aposDocId it) (item_id it)) (kind_name (item_type it))
       (del_of api (item_type it)) (Some (unpub_of api (item_type it))) w"

fun cleanup_loop ::
  "'s media_api \<Rightarrow> created_item list \<Rightarrow> 's
     \<Rightarrow> (js_error + bool list) \<times> 's \<times> media_event list" where
  "cleanup_loop api [] w = (Inr [], w, [])"
| "cleanup_loop api (it # items) w =
     (case cleanup_item api it w of
        (Inl e, w', evs) \<Rightarrow> (Inl e, w', evs)
      | (Inr b, w', evs) \<Rightarrow>
          (case cleanup_loop api items w' of
             (Inl e, w'', evs') \<Rightarrow> (Inl e, w'', evs @ Wait 300 # evs')
           | (Inr bs, w'', evs') \<Rightarrow> (Inr (b # bs), w'', evs @ Wait 300 # evs')))"

definition cleanup ::
  "'s media_api \<Rightarrow> created_item list \<Rightarrow> 's
     \<Rightarrow> (js_error + bool list) \<times> 's \<times> media_event list" where
  "cleanup api created w = cleanup_loop api (rev created) w"

text \<open>Readings of a run: the delete calls made, and the failures it logged.\<close>

fun delete_calls :: "media_event list \<Rightarrow> (jsval \<times> outcome) list" where
  "delete_calls [] = []"
| "delete_calls (Delete_call i out # evs) = (i, out) # delete_calls evs"
| "delete_calls (ev # evs) = delete_calls evs"

fun unpublish_calls :: "media_event list \<Rightarrow> (jsval \<times> outcome) list" where
  "unpublish_calls [] = []"
| "unpublish_calls (Unpublish_call i out # evs) = (i, out) # unpublish_calls evs"
| "unpublish_calls (ev # evs) = unpublish_calls evs"

fun failure_reasons :: "media_event list \<Rightarrow> (jsval \<times> reason) list" where
  "failure_reasons [] = []"
| "failure_reasons (Log_delete_attempt_failed i r # evs) = (i, r) # failure_reasons evs"
| "failure_reasons (ev # evs) = failure_reasons evs"

text \<open>
  The three answers of an operation in the specification's words: success is a
  response with status 200, not-found is a throw with response status 404, an error
  is any other throw.
\<close>

fun is_error :: "outcome \<Rightarrow> bool" where
  "is_error (Inl e) = (response_status e \<noteq> Some 404)"
| "is_error (Inr st) = False"

fun error_reason :: "outcome \<Rightarrow> reason" where
  "error_reason (Inl e) = status_or e (err_message e)"
| "error_reason (Inr st) = Status st"

section \<open>Page cleanup: \<^verbatim>\<open>safeDeletePage\<close>\<close>

text \<open>
  \<^verbatim>\<open>pageGetById\<close> resolves to the page document, of which \<^verbatim>\<open>aposDocId\<close> and
  \<^verbatim>\<open>_id\<close> are read. A response without a body behaves as a throw: reading
  \<^verbatim>\<open>aposDocId\<close> from it raises inside the same \<^verbatim>\<open>try\<close> and \<^verbatim>\<open>actualPageData\<close>
  stays falsy. In the same way a resolved value without a response object is a throw
  at \<^verbatim>\<open>.status\<close>.
\<close>

record page_data =
  page_aposDocId :: jsval
  page_id :: jsval

type_synonym 's get_operation = "jsval \<Rightarrow> 's \<Rightarrow> (js_error + page_data) \<times> 's"

record 's pages_api =
  pageGetById :: "'s get_operation"
  pageUnpublishById :: "'s operation"
  pageDeleteById :: "'s operation"

datatype page_detail =
    Deleted_with jsval
  | Delete_failed_status nat
  | Deleted_with_draft string
  | Deleted_with_base string
  | All_attempts_failed string

datatype page_event =
    PLog_attempting string string
  | PGet_call jsval "js_error + page_data"
  | PLog_page_info jsval jsval
  | PLog_no_page_info string
  | PLog_unpublishing string
  | PUnpublish_call jsval outcome
  | PLog_unpublish_ok nat
  | PLog_unpublish_failed string
  | PWait nat
  | PLog_using_aposDocId jsval
  | PLog_using_base_id string
  | PLog_deleting string jsval
  | PDelete_call jsval outcome
  | PLogTest string bool page_detail
  | PLog_first_attempt_failed string
  | PLog_trying_draft string
  | PLog_draft_failed string
  | PLog_trying_base string
  | PLog_base_failed string
  | PLog_manual_cleanup
  | PLog_http_status nat
  | PLog_error_details

text \<open>Lines 821-828: look the page up; a failure only leaves the data unknown.\<close>

definition fetch_page_info ::
  "'s pages_api \<Rightarrow> string \<Rightarrow> 's \<Rightarrow> page_data option \<times> 's \<times> page_event list" where
  "fetch_page_info api pageId w =
     (case pageGetById api (JStr pageId) w of
        (Inr pd, w') \<Rightarrow>
          (Some pd, w',
           [PGet_call (JStr pageId) (Inr pd), PLog_page_info (page_aposDocId pd) (page_id pd)])
      | (Inl e, w') \<Rightarrow>
          (None, w', [PGet_call (JStr pageId) (Inl e), PLog_no_page_info (err_message e)]))"

text \<open>Lines 831-838: the unpublish pre-step, with its own \<^verbatim>\<open>catch\<close>.\<close>

definition unpublish_page_step ::
  "'s pages_api \<Rightarrow> string \<Rightarrow> string \<Rightarrow> 's \<Rightarrow> 's \<times> page_event list" where
  "unpublish_page_step api pageId pageName w =
     (case pageUnpublishById api (JStr pageId) w of
        (Inr st, w') \<Rightarrow>
          (w', [PLog_unpublishing pageName, PUnpublish_call (JStr pageId) (Inr st),
                PLog_unpublish_ok st])
      | (Inl e, w') \<Rightarrow>
          (w', [PLog_unpublishing pageName, PUnpublish_call (JStr pageId) (Inl e),
                PLog_unpublish_failed (err_message e)]))"

text \<open>Lines 844-855: the identifier of the first delete attempt.\<close>

definition choose_deleteId :: "page_data option \<Rightarrow> string \<Rightarrow> jsval \<times> page_event list" where
  "choose_deleteId actualPageData pageId =
     (case actualPageData of
        Some pd \<Rightarrow> (page_aposDocId pd, [PLog_using_aposDocId (page_aposDocId pd)])
      | None \<Rightarrow>
          if js_includes pageId '':en:published''
          then (JStr (js_split_first CHR '':'' pageId),
                [PLog_using_base_id (js_split_first CHR '':'' pageId)])
          else (JStr pageId, []))"

text \<open>
  The body of the outer \<^verbatim>\<open>try\<close> (lines 818-866). The first delete call has no
  \<^verbatim>\<open>catch\<close> of its own: its throw leaves the body (\<open>Inl\<close>).
\<close>

definition safeDeletePage_try ::
  "'s pages_api \<Rightarrow> string \<Rightarrow> string \<Rightarrow> 's \<Rightarrow> (js_error + bool) \<times> 's \<times> page_event list" where
  "safeDeletePage_try api pageId pageName w =
     (case fetch_page_info api pageId w of
        (actualPageData, w1, evs1) \<Rightarrow>
     (case unpublish_page_step api pageId pageName w1 of
        (w2, evs2) \<Rightarrow>
     (case choose_deleteId actualPageData pageId of
        (deleteId, evs3) \<Rightarrow>
     (let pre = PLog_attempting pageName pageId # evs1 @ evs2 @ PWait 200 # evs3
                  @ [PLog_deleting pageName deleteId]
      in case pageDeleteById api deleteId w2 of
           (Inr st, w3) \<Rightarrow>
             if st = 200
             then (Inr True, w3,
                   pre @ [PDelete_call deleteId (Inr st),
                          PLogTest pageName True (Deleted_with deleteId)])
             else (Inr False, w3,
                   pre @ [PDelete_call deleteId (Inr st),
                          PLogTest pageName False (Delete_failed_status st)])
         | (Inl e, w3) \<Rightarrow> (Inl e, w3, pre @ [PDelete_call deleteId (Inl e)])))))"

text \<open>Lines 901-909: giving up.\<close>

definition give_up :: "string \<Rightarrow> string \<Rightarrow> js_error \<Rightarrow> page_event list" where
  "give_up pageId pageName deleteError =
     [PLogTest pageName False (All_attempts_failed pageId), PLog_manual_cleanup]
     @ (case response_status deleteError of
          Some st \<Rightarrow> [PLog_http_status st, PLog_error_details]
        | None \<Rightarrow> [])"

text \<open>Lines 886-898, then the fall through to giving up.\<close>

definition base_attempt ::
  "'s pages_api \<Rightarrow> string \<Rightarrow> string \<Rightarrow> js_error \<Rightarrow> 's
     \<Rightarrow> (js_error + bool) \<times> 's \<times> page_event list" where
  "base_attempt api pageId pageName deleteError w =
     (let baseId = js_split_first CHR '':'' pageId
      in case pageDeleteById api (JStr baseId) w of
           (Inr st, w') \<Rightarrow>
             if st = 200
             then (Inr True, w',
                   [PLog_trying_base baseId, PDelete_call (JStr baseId) (Inr st),
                    PLogTest pageName True (Deleted_with_base baseId)])
             else (Inr False, w',
                   [PLog_trying_base baseId, PDelete_call (JStr baseId) (Inr st)]
                   @ give_up pageId pageName deleteError)
         | (Inl e, w') \<Rightarrow>
             (Inr False, w',
              [PLog_trying_base baseId, PDelete_call (JStr baseId) (Inl e),
               PLog_base_failed (err_message e)]
              @ give_up pageId pageName deleteError))"

text \<open>Lines 872-884, then the base attempt.\<close>

definition draft_attempt ::
  "'s pages_api \<Rightarrow> string \<Rightarrow> string \<Rightarrow> js_error \<Rightarrow> 's
     \<Rightarrow> (js_error + bool) \<times> 's \<times> page_event list" where
  "draft_attempt api pageId pageName deleteError w =
     (let draftId = js_replace pageId '':en:published'' '':en:draft''
      in case pageDeleteById api (JStr draftId) w of
           (Inr st, w') \<Rightarrow>
             if st = 200
             then (Inr True, w',
                   [PLog_trying_draft draftId, PDelete_call (JStr draftId) (Inr st),
                    PLogTest pageName True (Deleted_with_draft draftId)])
             else (case base_attempt api pageId pageName deleteError w' of
                     (r, w'', evs) \<Rightarrow>
                       (r, w'',
                        [PLog_trying_draft draftId, PDelete_call (JStr draftId) (Inr st)]
                        @ evs))
         | (Inl e, w') \<Rightarrow>
             (case base_attempt api pageId pageName deleteError w' of
                (r, w'', evs) \<Rightarrow>
                  (r, w'',
                   [PLog_trying_draft draftId, PDelete_call (JStr draftId) (Inl e),
                    PLog_draft_failed (err_message e)]
                   @ evs)))"

text \<open>The outer \<^verbatim>\<open>catch\<close> (lines 867-910).\<close>

definition safeDeletePage_catch ::
  "'s pages_api \<Rightarrow> string \<Rightarrow> string \<Rightarrow> js_error \<Rightarrow> 's
     \<Rightarrow> (js_error + bool) \<times> 's \<times> page_event list" where
  "safeDeletePage_catch api pageId pageName deleteError w =
     (if js_includes pageId '':en:published''
      then (case draft_attempt api pageId pageName deleteError w of
              (r, w', evs) \<Rightarrow>
                (r, w', PLog_first_attempt_failed (err_message deleteError) # evs))
      else (Inr False, w,
            PLog_first_attempt_failed (err_message deleteError)
              # give_up pageId pageName deleteError))"

text \<open>\<^verbatim>\<open>safeDeletePage(pageId, pageName)\<close>, over the pages API it closes over.\<close>

definition safeDeletePage ::
  "'s pages_api \<Rightarrow> string \<Rightarrow> string \<Rightarrow> 's \<Rightarrow> (js_error + bool) \<times> 's \<times> page_event list" where
  "safeDeletePage api pageId pageName w =
     (case safeDeletePage_try api pageId pageName w of
        (Inr b, w', evs) \<Rightarrow> (Inr b, w', evs)
      | (Inl deleteError, w', evs) \<Rightarrow>
          (case safeDeletePage_catch api pageId pageName deleteError w' of
             (r, w'', evs') \<Rightarrow> (r, w'', evs @ evs')))"

fun page_delete_calls :: "page_event list \<Rightarrow> (jsval \<times> outcome) list" where
  "page_delete_calls [] = []"
| "page_delete_calls (PDelete_call i out # evs) = (i, out) # page_delete_calls evs"
| "page_delete_calls (ev # evs) = page_delete_calls evs"

fun page_unpublish_calls :: "page_event list \<Rightarrow> (jsval \<times> outcome) list" where
  "page_unpublish_calls [] = []"
| "page_unpublish_calls (PUnpublish_call i out # evs) = (i, out) # page_unpublish_calls evs"
| "page_unpublish_calls (ev # evs) = page_unpublish_calls evs"

fun page_failure_messages :: "page_event list \<Rightarrow> string list" where
  "page_failure_messages [] = []"
| "page_failure_messages (PLog_first_attempt_failed m # evs) = m # page_failure_messages evs"
| "page_failure_messages (PLog_draft_failed m # evs) = m # page_failure_messages evs"
| "page_failure_messages (PLog_base_failed m # evs) = m # page_failure_messages evs"
| "page_failure_messages (ev # evs) = page_failure_messages evs"

fun thrown_message :: "outcome \<Rightarrow> string" where
  "thrown_message (Inl e) = err_message e"
| "thrown_message (Inr st) = []"

section \<open>The candidate sequence as the specification words it\<close>

text \<open>
  The specification's ContentRef and its IdCandidateSet, kept apart from the code's
  \<open>tryIds\<close> to compare the two: \<open>aposDocId\<close> if known, then \<open>rawId\<close> with the published
  marker rewritten to the draft one, then \<open>rawId\<close> cut before its locale and mode
  suffix, duplicates removed keeping the first occurrence.
\<close>

record ContentRef =
  rawId :: string
  aposDocId :: "string option"

definition spec_IdCandidateSet :: "ContentRef \<Rightarrow> string list" where
  "spec_IdCandidateSet ref =
     new_Set ((case aposDocId ref of Some a \<Rightarrow> [a] | None \<Rightarrow> [])
              @ [js_replace (rawId ref) '':en:published'' '':en:draft'',
                 js_split_first CHR '':'' (rawId ref)])"

section \<open>Stand-ins for the content store\<close>

text \<open>Operations that give the same answer to every call and keep no state.\<close>

definition answers :: "outcome \<Rightarrow> 's operation" where
  "answers out i w = (out, w)"

definition get_answers :: "js_error + page_data \<Rightarrow> 's get_operation" where
  "get_answers out i w = (out, w)"

definition server_error :: js_error where
  "server_error = JsError (Some 500) ''Request failed with status code 500''"

definition not_found :: js_error where
  "not_found = JsError (Some 404) ''Request failed with status code 404''"

definition uniform_media_api :: "'s operation \<Rightarrow> 's operation \<Rightarrow> 's media_api" where
  "uniform_media_api del unpub =
     \<lparr>imageDeleteById = del, imageUnpublishById = unpub,
      fileDeleteById = del, fileUnpublishById = unpub,
      imageTagDeleteById = del, imageTagUnpublishById = unpub,
      fileTagDeleteById = del, fileTagUnpublishById = unpub\<rparr>"



definition conflict :: js_error where
  "conflict = JsError (Some 409) ''Request failed with status code 409''"




section \<open>Auxiliary facts\<close>

subsection \<open>Candidates and the media run\<close>

lemma new_Set_three:
  "new_Set [a, b, c] =
     (if b = a then (if c = a then [a] else [a, c])
      else if c = a \<or> c = b then [a, b] else [a, b, c])"
  by (simp add: new_Set_def set_add_def)

lemma foldl_set_add_distinct: "distinct acc \<Longrightarrow> distinct (foldl set_add acc xs)"
  by (induction xs arbitrary: acc) (simp_all add: set_add_def)

lemma distinct_new_Set: "distinct (new_Set xs)"
  by (simp add: new_Set_def foldl_set_add_distinct)

lemma new_Set_tryIds_Cons: "\<exists>ys. new_Set (tryIds s) = s # ys"
  by (simp add: tryIds_def new_Set_three)

lemma delete_calls_append [simp]: "delete_calls (xs @ ys) = delete_calls xs @ delete_calls ys"
  by (induction xs rule: delete_calls.induct) simp_all

lemma failure_reasons_append [simp]: "failure_reasons (xs @ ys) = failure_reasons xs @ failure_reasons ys"
  by (induction xs rule: failure_reasons.induct) simp_all

lemma unpublish_calls_append [simp]: "unpublish_calls (xs @ ys) = unpublish_calls xs @ unpublish_calls ys"
  by (induction xs rule: unpublish_calls.induct) simp_all

lemma unpublish_step_no_delete:
  "unpublish_step kind u i w = (w1, evs) \<Longrightarrow> delete_calls evs = [] \<and> failure_reasons evs = []"
  by (cases u) (auto split: prod.splits sum.splits if_splits)

lemma unpublish_step_Some:
  "u i w = (out, w1) \<Longrightarrow>
     \<exists>evs. unpublish_step kind (Some u) i w = (w1, evs) \<and> unpublish_calls evs = [(i, out)]"
  by (cases out) simp_all

lemma delete_loop_no_unpublish:
  "delete_loop kind del ids w = (r, w', evs) \<Longrightarrow> unpublish_calls evs = []"
  by (induction ids arbitrary: w r w' evs) (auto split: prod.splits sum.splits if_splits)

lemma delete_loop_calls:
  "delete_loop kind del ids w = (r, w', evs) \<Longrightarrow>
     prefix (map fst (delete_calls evs)) ids \<and> (ids \<noteq> [] \<longrightarrow> delete_calls evs \<noteq> [])
     \<and> r \<noteq> Some False"
  by (induction ids arbitrary: w r w' evs) (auto split: prod.splits sum.splits if_splits)

lemma delete_loop_first_call:
  "del i w = (out, w1) \<Longrightarrow> delete_loop kind del (i # ids) w = (r, w', evs) \<Longrightarrow>
     \<exists>rest. delete_calls evs = (i, out) # rest"
  by (auto split: prod.splits sum.splits if_splits)

lemma delete_loop_all_errors:
  "delete_loop kind del ids w = (r, w', evs) \<Longrightarrow>
   \<forall>c \<in> set (delete_calls evs). is_error (snd c) \<Longrightarrow>
     r = None \<and> map fst (delete_calls evs) = ids
     \<and> failure_reasons evs = map (\<lambda>c. (fst c, error_reason (snd c))) (delete_calls evs)"
  by (induction ids arbitrary: w r w' evs) (auto split: prod.splits sum.splits if_splits)

lemma safeDeleteDocument_run:
  assumes "s \<noteq> []"
      and "unpublish_step kind unpub (JStr s) w = (w1, evs1)"
      and "delete_loop kind del (map JStr (new_Set (tryIds s))) w1 = (r, w2, evs2)"
  shows "safeDeleteDocument (JStr s) kind del unpub w =
           (case r of Some b \<Rightarrow> (Inr b, w2, evs1 @ evs2)
                    | None \<Rightarrow> (Inr False, w2, evs1 @ evs2 @ [Log_may_be_protected kind]))"
  using assms by (simp split: option.splits)

lemma media_all_errors:
  assumes "s \<noteq> []"
      and run: "safeDeleteDocument (JStr s) kind deleteMethod unpublishMethod w = (r, w', evs)"
      and err: "\<forall>c \<in> set (delete_calls evs). is_error (snd c)"
  shows "r = Inr False \<and> map fst (delete_calls evs) = map JStr (new_Set (tryIds s))
         \<and> failure_reasons evs = map (\<lambda>c. (fst c, error_reason (snd c))) (delete_calls evs)"
proof -
  obtain w1 evs1 where pre: "unpublish_step kind unpublishMethod (JStr s) w = (w1, evs1)"
    by (cases "unpublish_step kind unpublishMethod (JStr s) w") auto
  obtain lr w2 evs2 where loop:
    "delete_loop kind deleteMethod (map JStr (new_Set (tryIds s))) w1 = (lr, w2, evs2)"
    by (cases "delete_loop kind deleteMethod (map JStr (new_Set (tryIds s))) w1") auto
  have none: "delete_calls evs1 = []" "failure_reasons evs1 = []"
    using unpublish_step_no_delete [OF pre] by simp_all
  have shape: "(r, w', evs) =
      (case lr of Some b \<Rightarrow> (Inr b, w2, evs1 @ evs2)
                | None \<Rightarrow> (Inr False, w2, evs1 @ evs2 @ [Log_may_be_protected kind]))"
    using safeDeleteDocument_run [OF assms(1) pre loop] run by simp
  have calls: "delete_calls evs = delete_calls evs2" "failure_reasons evs = failure_reasons evs2"
    using shape none by (auto split: option.splits)
  have "\<forall>c \<in> set (delete_calls evs2). is_error (snd c)"
    using err calls by simp
  from delete_loop_all_errors [OF loop this] shape calls show ?thesis
    by simp
qed

lemma safeDeleteDocument_returns:
  "\<exists>b w' evs. safeDeleteDocument itemId kind deleteMethod unpublishMethod w = (Inr b, w', evs)"
proof (cases itemId)
  case (JStr s)
  obtain w1 evs1 where pre: "unpublish_step kind unpublishMethod (JStr s) w = (w1, evs1)"
    by (cases "unpublish_step kind unpublishMethod (JStr s) w") auto
  obtain lr w2 evs2 where loop:
    "delete_loop kind deleteMethod (map JStr (new_Set (tryIds s))) w1 = (lr, w2, evs2)"
    by (cases "delete_loop kind deleteMethod (map JStr (new_Set (tryIds s))) w1") auto
  show ?thesis
    using JStr pre loop by (cases lr) auto
qed auto

lemma cleanup_loop_all:
  "\<exists>bs w' evs. cleanup_loop api items w = (Inr bs, w', evs) \<and> length bs = length items"
proof (induction items arbitrary: w)
  case Nil
  show ?case by simp
next
  case (Cons it items)
  obtain b w1 evs1 where one: "cleanup_item api it w = (Inr b, w1, evs1)"
    using safeDeleteDocument_returns
      [of "js_or (item_aposDocId it) (item_id it)" "kind_name (item_type it)"
          "del_of api (item_type it)" "Some (unpub_of api (item_type it))" w]
    by (auto simp: cleanup_item_def)
  obtain bs w2 evs2 where rest: "cleanup_loop api items w1 = (Inr bs, w2, evs2)"
    "length bs = length items"
    using Cons.IH by blast
  show ?case using one rest by simp
qed

subsection \<open>The page run\<close>

lemma page_delete_calls_append [simp]:
  "page_delete_calls (xs @ ys) = page_delete_calls xs @ page_delete_calls ys"
  by (induction xs rule: page_delete_calls.induct) simp_all

lemma page_unpublish_calls_append [simp]:
  "page_unpublish_calls (xs @ ys) = page_unpublish_calls xs @ page_unpublish_calls ys"
  by (induction xs rule: page_unpublish_calls.induct) simp_all

lemma page_failure_messages_append [simp]:
  "page_failure_messages (xs @ ys) = page_failure_messages xs @ page_failure_messages ys"
  by (induction xs rule: page_failure_messages.induct) simp_all

lemma fetch_page_info_quiet:
  "fetch_page_info api pageId w = (d, w1, evs) \<Longrightarrow>
     page_delete_calls evs = [] \<and> page_failure_messages evs = [] \<and> page_unpublish_calls evs = []"
  by (auto simp: fetch_page_info_def split: prod.splits sum.splits)

lemma fetch_page_info_data:
  "pageGetById api (JStr pageId) w = (g, w1) \<Longrightarrow>
     \<exists>evs. fetch_page_info api pageId w = (case g of Inr pd \<Rightarrow> Some pd | Inl e \<Rightarrow> None, w1, evs)"
  by (auto simp: fetch_page_info_def split: prod.splits sum.splits)

lemma unpublish_page_step_quiet:
  "unpublish_page_step api pageId pageName w = (w1, evs) \<Longrightarrow>
     page_delete_calls evs = [] \<and> page_failure_messages evs = []"
  by (auto simp: unpublish_page_step_def split: prod.splits sum.splits)

lemma unpublish_page_step_call:
  "pageUnpublishById api (JStr pageId) w = (u, w1) \<Longrightarrow>
     \<exists>evs. unpublish_page_step api pageId pageName w = (w1, evs)
          \<and> page_unpublish_calls evs = [(JStr pageId, u)]"
  by (cases u) (simp_all add: unpublish_page_step_def)

lemma choose_deleteId_quiet:
  "choose_deleteId d pageId = (i, evs) \<Longrightarrow>
     page_delete_calls evs = [] \<and> page_failure_messages evs = [] \<and> page_unpublish_calls evs = []"
  by (auto simp: choose_deleteId_def split: option.splits if_splits)

lemma give_up_quiet:
  "page_delete_calls (give_up pageId pageName e) = []
   \<and> page_failure_messages (give_up pageId pageName e) = []
   \<and> page_unpublish_calls (give_up pageId pageName e) = []"
  by (simp add: give_up_def split: option.splits)

lemma safeDeletePage_try_shape:
  assumes f: "fetch_page_info api pageId w = (d, w1, evs1)"
      and u: "unpublish_page_step api pageId pageName w1 = (w2, evs2)"
      and del: "pageDeleteById api (fst (choose_deleteId d pageId)) w2 = (out, w3)"
  shows "\<exists>pre. page_delete_calls pre = [] \<and> page_failure_messages pre = []
           \<and> page_unpublish_calls pre = page_unpublish_calls evs2
           \<and> safeDeletePage_try api pageId pageName w =
               (case out of
                  Inr st \<Rightarrow>
                    (Inr (st = 200), w3,
                     pre @ [PDelete_call (fst (choose_deleteId d pageId)) out,
                            PLogTest pageName (st = 200)
                              (if st = 200 then Deleted_with (fst (choose_deleteId d pageId))
                               else Delete_failed_status st)])
                | Inl e \<Rightarrow>
                    (Inl e, w3, pre @ [PDelete_call (fst (choose_deleteId d pageId)) out]))"
proof -
  obtain i evs3 where c: "choose_deleteId d pageId = (i, evs3)"
    by (cases "choose_deleteId d pageId") auto
  let ?pre = "PLog_attempting pageName pageId # evs1 @ evs2 @ PWait 200 # evs3
                  @ [PLog_deleting pageName i]"
  have q: "page_delete_calls ?pre = []" "page_failure_messages ?pre = []"
          "page_unpublish_calls ?pre = page_unpublish_calls evs2"
    using fetch_page_info_quiet [OF f] unpublish_page_step_quiet [OF u] choose_deleteId_quiet [OF c]
    by simp_all
  have "safeDeletePage_try api pageId pageName w =
               (case out of
                  Inr st \<Rightarrow>
                    (Inr (st = 200), w3,
                     ?pre @ [PDelete_call i out,
                            PLogTest pageName (st = 200)
                              (if st = 200 then Deleted_with i
                               else Delete_failed_status st)])
                | Inl e \<Rightarrow>
                    (Inl e, w3, ?pre @ [PDelete_call i out]))"
    using f u c del by (simp add: safeDeletePage_try_def split: sum.splits)
  with q c show ?thesis by (intro exI [of _ ?pre]) (cases out; simp)
qed

lemma base_attempt_shape:
  assumes "pageDeleteById api (JStr (js_split_first CHR '':'' pageId)) w = (out, w')"
  shows "\<exists>evs. base_attempt api pageId pageName deleteError w = (Inr (out = Inr 200), w', evs)
           \<and> page_delete_calls evs = [(JStr (js_split_first CHR '':'' pageId), out)]
           \<and> page_failure_messages evs = (case out of Inl e \<Rightarrow> [err_message e] | Inr st \<Rightarrow> [])
           \<and> page_unpublish_calls evs = []"
  using assms give_up_quiet [of pageId pageName deleteError]
  by (cases out) (simp_all add: base_attempt_def Let_def)

lemma draft_attempt_shape:
  assumes d: "pageDeleteById api (JStr (js_replace pageId '':en:published'' '':en:draft'')) w = (out1, w1)"
      and b: "pageDeleteById api (JStr (js_split_first CHR '':'' pageId)) w1 = (out2, w2)"
  shows "\<exists>evs. draft_attempt api pageId pageName deleteError w =
             (if out1 = Inr 200 then (Inr True, w1, evs) else (Inr (out2 = Inr 200), w2, evs))
           \<and> page_delete_calls evs =
               (JStr (js_replace pageId '':en:published'' '':en:draft''), out1)
                 # (if out1 = Inr 200 then [] else [(JStr (js_split_first CHR '':'' pageId), out2)])
           \<and> page_failure_messages evs =
               (case out1 of Inl e \<Rightarrow> [err_message e] | Inr st \<Rightarrow> [])
               @ (if out1 = Inr 200 then []
                  else (case out2 of Inl e \<Rightarrow> [err_message e] | Inr st \<Rightarrow> []))
           \<and> page_unpublish_calls evs = []"
proof -
  from base_attempt_shape [OF b, of pageName deleteError]
  obtain evs where e: "base_attempt api pageId pageName deleteError w1 = (Inr (out2 = Inr 200), w2, evs)"
    "page_delete_calls evs = [(JStr (js_split_first CHR '':'' pageId), out2)]"
    "page_failure_messages evs = (case out2 of Inl e \<Rightarrow> [err_message e] | Inr st \<Rightarrow> [])"
    "page_unpublish_calls evs = []"
    by blast
  show ?thesis
    using d e by (cases out1) (simp_all add: draft_attempt_def Let_def)
qed

lemma safeDeletePage_cases:
  fixes api :: "'s pages_api" and pageId :: string
  defines "draftId \<equiv> js_replace pageId '':en:published'' '':en:draft''"
      and "baseId \<equiv> js_split_first CHR '':'' pageId"
  assumes f: "fetch_page_info api pageId w = (d, w1, evs1)"
      and u: "unpublish_page_step api pageId pageName w1 = (w2, evs2)"
      and del: "pageDeleteById api (fst (choose_deleteId d pageId)) w2 = (out, w3)"
      and dr: "pageDeleteById api (JStr draftId) w3 = (out1, w4)"
      and ba: "pageDeleteById api (JStr baseId) w4 = (out2, w5)"
  shows "\<exists>evs.
      safeDeletePage api pageId pageName w =
        (case out of
           Inr st \<Rightarrow> (Inr (st = 200), w3, evs)
         | Inl e \<Rightarrow>
             if js_includes pageId '':en:published''
             then (if out1 = Inr 200 then (Inr True, w4, evs)
                   else (Inr (out2 = Inr 200), w5, evs))
             else (Inr False, w3, evs))
      \<and> page_delete_calls evs =
          (fst (choose_deleteId d pageId), out)
            # (case out of
                 Inr st \<Rightarrow> []
               | Inl e \<Rightarrow>
                   if js_includes pageId '':en:published''
                   then (JStr draftId, out1)
                          # (if out1 = Inr 200 then [] else [(JStr baseId, out2)])
                   else [])
      \<and> page_failure_messages evs =
          (case out of
             Inr st \<Rightarrow> []
           | Inl e \<Rightarrow>
               err_message e
                 # (if js_includes pageId '':en:published''
                    then (case out1 of Inl e1 \<Rightarrow> [err_message e1] | Inr st \<Rightarrow> [])
                         @ (if out1 = Inr 200 then []
                            else (case out2 of Inl e2 \<Rightarrow> [err_message e2] | Inr st \<Rightarrow> []))
                    else []))
      \<and> page_unpublish_calls evs = page_unpublish_calls evs2"
proof -
  from safeDeletePage_try_shape [OF f u del]
  obtain pre where pre: "page_delete_calls pre = []" "page_failure_messages pre = []"
      "page_unpublish_calls pre = page_unpublish_calls evs2"
    and body: "safeDeletePage_try api pageId pageName w =
               (case out of
                  Inr st \<Rightarrow>
                    (Inr (st = 200), w3,
                     pre @ [PDelete_call (fst (choose_deleteId d pageId)) out,
                            PLogTest pageName (st = 200)
                              (if st = 200 then Deleted_with (fst (choose_deleteId d pageId))
                               else Delete_failed_status st)])
                | Inl e \<Rightarrow>
                    (Inl e, w3, pre @ [PDelete_call (fst (choose_deleteId d pageId)) out]))"
    by blast
  show ?thesis
  proof (cases out)
    case (Inr st)
    then show ?thesis using body pre by (simp add: safeDeletePage_def)
  next
    case (Inl e)
    show ?thesis
    proof (cases "js_includes pageId '':en:published''")
      case False
      then show ?thesis
        using Inl body pre give_up_quiet [of pageId pageName e]
        by (simp add: safeDeletePage_def safeDeletePage_catch_def)
    next
      case True
      from draft_attempt_shape [OF dr [unfolded draftId_def] ba [unfolded baseId_def], of pageName e]
      obtain evs where
        "draft_attempt api pageId pageName e w3 =
             (if out1 = Inr 200 then (Inr True, w4, evs) else (Inr (out2 = Inr 200), w5, evs))"
        "page_delete_calls evs =
               (JStr draftId, out1) # (if out1 = Inr 200 then [] else [(JStr baseId, out2)])"
        "page_failure_messages evs =
               (case out1 of Inl e \<Rightarrow> [err_message e] | Inr st \<Rightarrow> [])
               @ (if out1 = Inr 200 then []
                  else (case out2 of Inl e \<Rightarrow> [err_message e] | Inr st \<Rightarrow> []))"
        "page_unpublish_calls evs = []"
        unfolding draftId_def baseId_def by blast
      then show ?thesis
        using Inl True body pre
        by (simp add: safeDeletePage_def safeDeletePage_catch_def)
    qed
  qed
qed

lemma safeDeletePage_returns:
  "\<exists>b w' evs. safeDeletePage api pageId pageName w = (Inr b, w', evs)"
proof -
  obtain d w1 evs1 where f: "fetch_page_info api pageId w = (d, w1, evs1)"
    by (cases "fetch_page_info api pageId w") auto
  obtain w2 evs2 where u: "unpublish_page_step api pageId pageName w1 = (w2, evs2)"
    by (cases "unpublish_page_step api pageId pageName w1") auto
  obtain out w3 where del: "pageDeleteById api (fst (choose_deleteId d pageId)) w2 = (out, w3)"
    by (cases "pageDeleteById api (fst (choose_deleteId d pageId)) w2") auto
  obtain out1 w4 where dr:
    "pageDeleteById api (JStr (js_replace pageId '':en:published'' '':en:draft'')) w3 = (out1, w4)"
    by (cases "pageDeleteById api (JStr (js_replace pageId '':en:published'' '':en:draft'')) w3") auto
  obtain out2 w5 where ba:
    "pageDeleteById api (JStr (js_split_first CHR '':'' pageId)) w4 = (out2, w5)"
    by (cases "pageDeleteById api (JStr (js_split_first CHR '':'' pageId)) w4") auto
  from safeDeletePage_cases [OF f u del dr ba] show ?thesis
    by (cases out) (auto split: if_splits)
qed

lemma page_all_errors:
  assumes run: "safeDeletePage api pageId pageName w = (r, w', evs)"
      and err: "\<forall>c \<in> set (page_delete_calls evs). is_error (snd c)"
  shows "r = Inr False
         \<and> page_failure_messages evs = map (\<lambda>c. thrown_message (snd c)) (page_delete_calls evs)
         \<and> length (page_delete_calls evs) = (if js_includes pageId '':en:published'' then 3 else 1)"
proof -
  obtain d w1 evs1 where f: "fetch_page_info api pageId w = (d, w1, evs1)"
    by (cases "fetch_page_info api pageId w") auto
  obtain w2 evs2 where u: "unpublish_page_step api pageId pageName w1 = (w2, evs2)"
    by (cases "unpublish_page_step api pageId pageName w1") auto
  obtain out w3 where del: "pageDeleteById api (fst (choose_deleteId d pageId)) w2 = (out, w3)"
    by (cases "pageDeleteById api (fst (choose_deleteId d pageId)) w2") auto
  obtain out1 w4 where dr:
    "pageDeleteById api (JStr (js_replace pageId '':en:published'' '':en:draft'')) w3 = (out1, w4)"
    by (cases "pageDeleteById api (JStr (js_replace pageId '':en:published'' '':en:draft'')) w3") auto
  obtain out2 w5 where ba:
    "pageDeleteById api (JStr (js_split_first CHR '':'' pageId)) w4 = (out2, w5)"
    by (cases "pageDeleteById api (JStr (js_split_first CHR '':'' pageId)) w4") auto
  from safeDeletePage_cases [OF f u del dr ba] run err show ?thesis
    by (cases out; cases out1; cases out2) (auto split: if_splits)
qed

lemma page_no_marker:
  assumes nomark: "\<not> js_includes pageId '':en:published''"
      and run: "safeDeletePage api pageId pageName w = (r, w', evs)"
  shows "length (page_delete_calls evs) = 1
         \<and> (\<forall>e. snd (hd (page_delete_calls evs)) = Inl e \<longrightarrow> r = Inr False)"
proof -
  obtain d w1 evs1 where f: "fetch_page_info api pageId w = (d, w1, evs1)"
    by (cases "fetch_page_info api pageId w") auto
  obtain w2 evs2 where u: "unpublish_page_step api pageId pageName w1 = (w2, evs2)"
    by (cases "unpublish_page_step api pageId pageName w1") auto
  obtain out w3 where del: "pageDeleteById api (fst (choose_deleteId d pageId)) w2 = (out, w3)"
    by (cases "pageDeleteById api (fst (choose_deleteId d pageId)) w2") auto
  obtain out1 w4 where dr:
    "pageDeleteById api (JStr (js_replace pageId '':en:published'' '':en:draft'')) w3 = (out1, w4)"
    by (cases "pageDeleteById api (JStr (js_replace pageId '':en:published'' '':en:draft'')) w3") auto
  obtain out2 w5 where ba:
    "pageDeleteById api (JStr (js_split_first CHR '':'' pageId)) w4 = (out2, w5)"
    by (cases "pageDeleteById api (JStr (js_split_first CHR '':'' pageId)) w4") auto
  from safeDeletePage_cases [OF f u del dr ba] run nomark show ?thesis
    by (cases out) auto
qed

lemma page_calls_prefix:
  assumes f: "fetch_page_info api pageId w = (d, w1, evs1)"
      and run: "safeDeletePage api pageId pageName w = (r, w', evs)"
  shows "page_delete_calls evs \<noteq> []
         \<and> fst (hd (page_delete_calls evs)) = fst (choose_deleteId d pageId)
         \<and> prefix (map fst (page_delete_calls evs))
             [fst (choose_deleteId d pageId),
              JStr (js_replace pageId '':en:published'' '':en:draft''),
              JStr (js_split_first CHR '':'' pageId)]"
proof -
  obtain w2 evs2 where u: "unpublish_page_step api pageId pageName w1 = (w2, evs2)"
    by (cases "unpublish_page_step api pageId pageName w1") auto
  obtain out w3 where del: "pageDeleteById api (fst (choose_deleteId d pageId)) w2 = (out, w3)"
    by (cases "pageDeleteById api (fst (choose_deleteId d pageId)) w2") auto
  obtain out1 w4 where dr:
    "pageDeleteById api (JStr (js_replace pageId '':en:published'' '':en:draft'')) w3 = (out1, w4)"
    by (cases "pageDeleteById api (JStr (js_replace pageId '':en:published'' '':en:draft'')) w3") auto
  obtain out2 w5 where ba:
    "pageDeleteById api (JStr (js_split_first CHR '':'' pageId)) w4 = (out2, w5)"
    by (cases "pageDeleteById api (JStr (js_split_first CHR '':'' pageId)) w4") auto
  from safeDeletePage_cases [OF f u del dr ba] run show ?thesis
    by (cases out) (auto split: if_splits)
qed

lemma page_true_needs_200:
  assumes run: "safeDeletePage api pageId pageName w = (r, w', evs)"
  shows "r = Inr (snd (last (page_delete_calls evs)) = Inr 200)"
proof -
  obtain d w1 evs1 where f: "fetch_page_info api pageId w = (d, w1, evs1)"
    by (cases "fetch_page_info api pageId w") auto
  obtain w2 evs2 where u: "unpublish_page_step api pageId pageName w1 = (w2, evs2)"
    by (cases "unpublish_page_step api pageId pageName w1") auto
  obtain out w3 where del: "pageDeleteById api (fst (choose_deleteId d pageId)) w2 = (out, w3)"
    by (cases "pageDeleteById api (fst (choose_deleteId d pageId)) w2") auto
  obtain out1 w4 where dr:
    "pageDeleteById api (JStr (js_replace pageId '':en:published'' '':en:draft'')) w3 = (out1, w4)"
    by (cases "pageDeleteById api (JStr (js_replace pageId '':en:published'' '':en:draft'')) w3") auto
  obtain out2 w5 where ba:
    "pageDeleteById api (JStr (js_split_first CHR '':'' pageId)) w4 = (out2, w5)"
    by (cases "pageDeleteById api (JStr (js_split_first CHR '':'' pageId)) w4") auto
  from safeDeletePage_cases [OF f u del dr ba] run show ?thesis
    by (cases out) (auto split: if_splits)
qed

lemma page_first_throw:
  assumes run: "safeDeletePage api pageId pageName w = (r, w', evs)"
      and thrown: "snd (hd (page_delete_calls evs)) = Inl e"
  shows "page_failure_messages evs \<noteq> [] \<and> hd (page_failure_messages evs) = err_message e
         \<and> (\<not> js_includes pageId '':en:published''
              \<longrightarrow> r = Inr False \<and> length (page_delete_calls evs) = 1)
         \<and> (js_includes pageId '':en:published''
              \<longrightarrow> 2 \<le> length (page_delete_calls evs)
                  \<and> fst (page_delete_calls evs ! 1)
                      = JStr (js_replace pageId '':en:published'' '':en:draft''))"
proof -
  obtain d w1 evs1 where f: "fetch_page_info api pageId w = (d, w1, evs1)"
    by (cases "fetch_page_info api pageId w") auto
  obtain w2 evs2 where u: "unpublish_page_step api pageId pageName w1 = (w2, evs2)"
    by (cases "unpublish_page_step api pageId pageName w1") auto
  obtain out w3 where del: "pageDeleteById api (fst (choose_deleteId d pageId)) w2 = (out, w3)"
    by (cases "pageDeleteById api (fst (choose_deleteId d pageId)) w2") auto
  obtain out1 w4 where dr:
    "pageDeleteById api (JStr (js_replace pageId '':en:published'' '':en:draft'')) w3 = (out1, w4)"
    by (cases "pageDeleteById api (JStr (js_replace pageId '':en:published'' '':en:draft'')) w3") auto
  obtain out2 w5 where ba:
    "pageDeleteById api (JStr (js_split_first CHR '':'' pageId)) w4 = (out2, w5)"
    by (cases "pageDeleteById api (JStr (js_split_first CHR '':'' pageId)) w4") auto
  from safeDeletePage_cases [OF f u del dr ba] run thrown show ?thesis
    by (cases out) (auto split: if_splits)
qed

subsection \<open>The backing store\<close>





subsection \<open>Unfolding concrete runs\<close>

lemmas media_run_defs =
  cleanup_item_def uniform_media_api_def answers_def server_error_def not_found_def conflict_def
  js_or_def tryIds_def new_Set_def set_add_def js_split_first_def status_or_def

lemmas page_run_defs =
  safeDeletePage_def safeDeletePage_try_def safeDeletePage_catch_def draft_attempt_def
  base_attempt_def give_up_def fetch_page_info_def unpublish_page_step_def choose_deleteId_def
  get_answers_def answers_def server_error_def not_found_def js_split_first_def Let_def


section \<open>The candidate sequence\<close>

text \<open>
  C1, as the specification words it, fails on the code. For an item whose
  \<^verbatim>\<open>aposDocId\<close> is null and whose id is \<^verbatim>\<open>xyz:en:published\<close> the specification's
  sequence is the draft form and then the bare id, without the original form. The
  media cleanup, against a store that refuses every delete, calls delete on the
  original form first, then on the draft form, then on the bare id.
\<close>

theorem spec_candidates_counterexample:
  "map fst (delete_calls (snd (snd (cleanup_item
       (uniform_media_api (answers (Inl server_error)) (answers (Inr 200)))
       \<lparr>item_id = JStr ''xyz:en:published'', item_aposDocId = JNull, item_type = Image\<rparr> ()))))
     = [JStr ''xyz:en:published'', JStr ''xyz:en:draft'', JStr ''xyz'']
   \<and> spec_IdCandidateSet \<lparr>rawId = ''xyz:en:published'', aposDocId = None\<rparr>
     = [''xyz:en:draft'', ''xyz'']
   \<and> map fst (delete_calls (snd (snd (cleanup_item
       (uniform_media_api (answers (Inl server_error)) (answers (Inr 200)))
       \<lparr>item_id = JStr ''xyz:en:published'', item_aposDocId = JNull, item_type = Image\<rparr> ()))))
     \<noteq> map JStr (spec_IdCandidateSet \<lparr>rawId = ''xyz:en:published'', aposDocId = None\<rparr>)
   \<and> JStr ''xyz:en:published'' \<in> set (map fst (delete_calls (snd (snd (cleanup_item
       (uniform_media_api (answers (Inl server_error)) (answers (Inr 200)))
       \<lparr>item_id = JStr ''xyz:en:published'', item_aposDocId = JNull, item_type = Image\<rparr> ())))))"
  by (simp add: cleanup_item_def uniform_media_api_def answers_def server_error_def js_or_def
      tryIds_def new_Set_def set_add_def js_split_first_def spec_IdCandidateSet_def)

text \<open>
  C1, as amended. The candidates of the media cleanup all derive from one identifier,
  \<open>itemId\<close> = \<^verbatim>\<open>it.aposDocId || it.id\<close>: first \<open>itemId\<close> in its original form, then
  \<open>itemId\<close> with its first \<^verbatim>\<open>:en:published\<close> rewritten to \<^verbatim>\<open>:en:draft\<close>, then
  \<open>itemId\<close> cut before its first colon. Duplicates are dropped keeping the first
  occurrence, so the sequence has no repetition, is never empty and always starts with
  the original form. The delete calls of a run are a non-empty initial part of it.
  The page cleanup keeps no such list: its delete calls are a non-empty initial part
  of the first identifier (the fetched \<^verbatim>\<open>aposDocId\<close>, else the bare id when
  \<open>pageId\<close> carries the published marker, else \<open>pageId\<close>), the draft form of
  \<open>pageId\<close> and the bare id of \<open>pageId\<close>.
\<close>

theorem tried_candidates_start_with_itemId:
  assumes item: "js_or (item_aposDocId it) (item_id it) = JStr s" and s: "s \<noteq> []"
      and run: "cleanup_item api it w = (r, w', evs)"
      and f: "fetch_page_info papi pageId pw = (pd, pw1, pevs1)"
      and prun: "safeDeletePage papi pageId pageName pw = (pr, pw', pevs)"
  shows "new_Set (tryIds s) =
           (if js_replace s '':en:published'' '':en:draft'' = s
            then (if js_split_first CHR '':'' s = s then [s] else [s, js_split_first CHR '':'' s])
            else if js_split_first CHR '':'' s = s
                    \<or> js_split_first CHR '':'' s = js_replace s '':en:published'' '':en:draft''
                 then [s, js_replace s '':en:published'' '':en:draft'']
                 else [s, js_replace s '':en:published'' '':en:draft'', js_split_first CHR '':'' s])
         \<and> distinct (new_Set (tryIds s)) \<and> hd (new_Set (tryIds s)) = s
         \<and> delete_calls evs \<noteq> []
         \<and> prefix (map fst (delete_calls evs)) (map JStr (new_Set (tryIds s)))
         \<and> page_delete_calls pevs \<noteq> []
         \<and> prefix (map fst (page_delete_calls pevs))
              [fst (choose_deleteId pd pageId),
               JStr (js_replace pageId '':en:published'' '':en:draft''),
               JStr (js_split_first CHR '':'' pageId)]"
proof -
  have a: "new_Set (tryIds s) =
           (if js_replace s '':en:published'' '':en:draft'' = s
            then (if js_split_first CHR '':'' s = s then [s] else [s, js_split_first CHR '':'' s])
            else if js_split_first CHR '':'' s = s
                    \<or> js_split_first CHR '':'' s = js_replace s '':en:published'' '':en:draft''
                 then [s, js_replace s '':en:published'' '':en:draft'']
                 else [s, js_replace s '':en:published'' '':en:draft'', js_split_first CHR '':'' s])"
    by (simp add: tryIds_def new_Set_three)
  obtain ys where ys: "new_Set (tryIds s) = s # ys"
    using new_Set_tryIds_Cons by blast
  then have b: "hd (new_Set (tryIds s)) = s" by simp
  obtain w1 evs1 where pre:
    "unpublish_step (kind_name (item_type it)) (Some (unpub_of api (item_type it))) (JStr s) w
       = (w1, evs1)"
    by (cases "unpublish_step (kind_name (item_type it)) (Some (unpub_of api (item_type it))) (JStr s) w") auto
  obtain lr w2 evs2 where loop:
    "delete_loop (kind_name (item_type it)) (del_of api (item_type it))
       (map JStr (new_Set (tryIds s))) w1 = (lr, w2, evs2)"
    by (cases "delete_loop (kind_name (item_type it)) (del_of api (item_type it))
       (map JStr (new_Set (tryIds s))) w1") auto
  have "delete_calls evs1 = []"
    using unpublish_step_no_delete [OF pre] by simp
  moreover have "(case lr of Some b \<Rightarrow> (Inr b, w2, evs1 @ evs2)
                    | None \<Rightarrow> (Inr False, w2, evs1 @ evs2 @ [Log_may_be_protected (kind_name (item_type it))]))
                 = (r, w', evs)"
    using run [unfolded cleanup_item_def item safeDeleteDocument_run [OF s pre loop]] by simp
  ultimately have "delete_calls evs = delete_calls evs2"
    by (auto split: option.splits)
  then have c: "delete_calls evs \<noteq> []"
      "prefix (map fst (delete_calls evs)) (map JStr (new_Set (tryIds s)))"
    using delete_loop_calls [OF loop] ys by simp_all
  from a b c distinct_new_Set [of "tryIds s"] page_calls_prefix [OF f prun] show ?thesis
    by blast
qed

theorem tried_candidates_start_with_itemId_witness:
  "new_Set (tryIds ''xyz:en:published'') = [''xyz:en:published'', ''xyz:en:draft'', ''xyz'']
   \<and> hd (new_Set (tryIds ''xyz:en:published'')) = ''xyz:en:published''
   \<and> prefix
        (map fst (delete_calls (snd (snd (cleanup_item
            (uniform_media_api (answers (Inr 200)) (answers (Inl server_error)))
            \<lparr>item_id = JStr ''xyz:en:published'', item_aposDocId = JNull, item_type = Image\<rparr>
            ())))))
        (map JStr (new_Set (tryIds ''xyz:en:published'')))
   \<and> prefix
        (map fst (page_delete_calls (snd (snd (safeDeletePage
            \<lparr>pageGetById = get_answers (Inl not_found),
              pageUnpublishById = answers (Inl server_error),
              pageDeleteById = answers (Inl server_error)\<rparr>
            ''xyz:en:published'' ''test page'' ())))))
        [JStr ''xyz'', JStr ''xyz:en:draft'', JStr ''xyz'']"
proof -
  let ?it = "\<lparr>item_id = JStr ''xyz:en:published'', item_aposDocId = JNull, item_type = Image\<rparr>"
  let ?api = "uniform_media_api (answers (Inr 200)) (answers (Inl server_error)) :: unit media_api"
  let ?papi = "\<lparr>pageGetById = get_answers (Inl not_found),
              pageUnpublishById = answers (Inl server_error),
              pageDeleteById = answers (Inl server_error)\<rparr> :: unit pages_api"
  let ?R = "cleanup_item ?api ?it ()"
  let ?F = "fetch_page_info ?papi ''xyz:en:published'' ()"
  let ?P = "safeDeletePage ?papi ''xyz:en:published'' ''test page'' ()"
  have h1: "js_or (item_aposDocId ?it) (item_id ?it) = JStr ''xyz:en:published''"
    by (simp add: js_or_def)
  have h2: "''xyz:en:published'' \<noteq> []" by simp
  have h3: "?R = (fst ?R, fst (snd ?R), snd (snd ?R))" by (simp only: prod.collapse)
  have h4: "?F = (None, (), snd (snd ?F))"
    by (simp add: fetch_page_info_def get_answers_def)
  have h5: "?P = (fst ?P, fst (snd ?P), snd (snd ?P))" by (simp only: prod.collapse)
  have c: "fst (choose_deleteId None ''xyz:en:published'') = JStr ''xyz''"
    by (simp add: choose_deleteId_def js_split_first_def)
  from tried_candidates_start_with_itemId [OF h1 h2 h3 h4 h5] c show ?thesis
    by (auto simp: js_split_first_def)
qed

section \<open>Failure of every candidate\<close>

text \<open>
  C2. When every delete call of a run ends in an error (a throw other than a 404),
  the run returns false, it has called delete on every candidate in candidate order,
  and it has logged one failure per call, in the same order, each naming the candidate
  and the status or message of its error: as many reasons as candidates. The page
  cleanup likewise returns false with one logged message per delete call, three
  when \<open>pageId\<close> carries the published marker and one otherwise. The reasons are
  the failure lines of the run; the value returned is the boolean.
\<close>

theorem all_candidates_error_reasons:
  assumes "s \<noteq> []"
      and "safeDeleteDocument (JStr s) kind deleteMethod unpublishMethod w = (r, w', evs)"
      and "\<forall>c \<in> set (delete_calls evs). is_error (snd c)"
      and "safeDeletePage api pageId pageName pw = (pr, pw', pevs)"
      and "\<forall>c \<in> set (page_delete_calls pevs). is_error (snd c)"
  shows "r = Inr False
         \<and> map fst (delete_calls evs) = map JStr (new_Set (tryIds s))
         \<and> failure_reasons evs = map (\<lambda>c. (fst c, error_reason (snd c))) (delete_calls evs)
         \<and> length (failure_reasons evs) = length (new_Set (tryIds s))
         \<and> pr = Inr False
         \<and> page_failure_messages pevs
             = map (\<lambda>c. thrown_message (snd c)) (page_delete_calls pevs)
         \<and> length (page_failure_messages pevs)
             = (if js_includes pageId '':en:published'' then 3 else 1)"
proof -
  have m: "r = Inr False" "map fst (delete_calls evs) = map JStr (new_Set (tryIds s))"
     "failure_reasons evs = map (\<lambda>c. (fst c, error_reason (snd c))) (delete_calls evs)"
    using media_all_errors [OF assms(1,2,3)] by simp_all
  have "length (failure_reasons evs) = length (map fst (delete_calls evs))"
    using m(3) by simp
  then have n: "length (failure_reasons evs) = length (new_Set (tryIds s))"
    using m(2) by simp
  have p: "pr = Inr False"
     "page_failure_messages pevs = map (\<lambda>c. thrown_message (snd c)) (page_delete_calls pevs)"
     "length (page_delete_calls pevs) = (if js_includes pageId '':en:published'' then 3 else 1)"
    using page_all_errors [OF assms(4,5)] by simp_all
  have "length (page_failure_messages pevs) = length (page_delete_calls pevs)"
    using p(2) by simp
  with m n p show ?thesis by simp
qed

theorem all_candidates_error_reasons_witness:
  "map snd (delete_calls (snd (snd (safeDeleteDocument (JStr ''q:en:published'') ''file''
        (answers (Inl server_error)) (Some (answers (Inl not_found))) ()))))
     = [Inl server_error, Inl server_error, Inl server_error]
   \<and> is_error (Inl server_error)
   \<and> fst (safeDeleteDocument (JStr ''q:en:published'') ''file''
        (answers (Inl server_error)) (Some (answers (Inl not_found))) ()) = Inr False
   \<and> failure_reasons (snd (snd (safeDeleteDocument (JStr ''q:en:published'') ''file''
        (answers (Inl server_error)) (Some (answers (Inl not_found))) ())))
     = [(JStr ''q:en:published'', Status 500), (JStr ''q:en:draft'', Status 500),
        (JStr ''q'', Status 500)]
   \<and> fst (safeDeletePage
        \<lparr>pageGetById = get_answers (Inl not_found),
          pageUnpublishById = answers (Inl server_error),
          pageDeleteById = answers (Inl server_error)\<rparr>
        ''q:en:published'' ''test page'' ()) = Inr False
   \<and> length (page_failure_messages (snd (snd (safeDeletePage
        \<lparr>pageGetById = get_answers (Inl not_found),
          pageUnpublishById = answers (Inl server_error),
          pageDeleteById = answers (Inl server_error)\<rparr>
        ''q:en:published'' ''test page'' ())))) = 3"
proof -
  let ?papi = "\<lparr>pageGetById = get_answers (Inl not_found),
              pageUnpublishById = answers (Inl server_error),
              pageDeleteById = answers (Inl server_error)\<rparr> :: unit pages_api"
  let ?R = "safeDeleteDocument (JStr ''q:en:published'') ''file''
        (answers (Inl server_error)) (Some (answers (Inl not_found))) ()"
  let ?P = "safeDeletePage ?papi ''q:en:published'' ''test page'' ()"
  have h1: "''q:en:published'' \<noteq> []" by simp
  have h2: "?R = (fst ?R, fst (snd ?R), snd (snd ?R))" by (simp only: prod.collapse)
  have h3: "\<forall>c \<in> set (delete_calls (snd (snd ?R))). is_error (snd c)"
    by (simp add: media_run_defs)
  have h4: "?P = (fst ?P, fst (snd ?P), snd (snd ?P))" by (simp only: prod.collapse)
  have h5: "\<forall>c \<in> set (page_delete_calls (snd (snd ?P))). is_error (snd c)"
    by (simp add: page_run_defs)
  have calls: "delete_calls (snd (snd ?R)) =
      [(JStr ''q:en:published'', Inl server_error), (JStr ''q:en:draft'', Inl server_error),
       (JStr ''q'', Inl server_error)]"
    by (simp add: media_run_defs)
  from all_candidates_error_reasons [OF h1 h2 h3 h4 h5] h3 calls show ?thesis
    by (auto simp: server_error_def status_or_def)
qed

section \<open>Not found at the first candidate\<close>

text \<open>
  C3, as the specification words it for every ContentRef, fails on the page cleanup.
  Against a server that answers not-found (status 404) to every call,
  \<^verbatim>\<open>safeDeletePage\<close> on \<^verbatim>\<open>id1\<close> returns false after its one delete call, and on
  \<^verbatim>\<open>xyz:en:published\<close> it goes on after the first not-found to the draft form and
  the bare id, and returns false.
\<close>

theorem page_not_found_counterexample:
  "response_status not_found = Some 404
   \<and> fst (safeDeletePage
          \<lparr>pageGetById = get_answers (Inl not_found),
            pageUnpublishById = answers (Inl not_found),
            pageDeleteById = answers (Inl not_found)\<rparr>
          ''id1'' ''test page'' ()) = Inr False
   \<and> page_delete_calls (snd (snd (safeDeletePage
          \<lparr>pageGetById = get_answers (Inl not_found),
            pageUnpublishById = answers (Inl not_found),
            pageDeleteById = answers (Inl not_found)\<rparr>
          ''id1'' ''test page'' ()))) = [(JStr ''id1'', Inl not_found)]
   \<and> fst (safeDeletePage
          \<lparr>pageGetById = get_answers (Inl not_found),
            pageUnpublishById = answers (Inl not_found),
            pageDeleteById = answers (Inl not_found)\<rparr>
          ''xyz:en:published'' ''test page'' ()) = Inr False
   \<and> page_delete_calls (snd (snd (safeDeletePage
          \<lparr>pageGetById = get_answers (Inl not_found),
            pageUnpublishById = answers (Inl not_found),
            pageDeleteById = answers (Inl not_found)\<rparr>
          ''xyz:en:published'' ''test page'' ())))
       = [(JStr ''xyz'', Inl not_found), (JStr ''xyz:en:draft'', Inl not_found),
          (JStr ''xyz'', Inl not_found)]"
  by (simp add: page_run_defs)

text \<open>
  C3, as amended. In \<^verbatim>\<open>safeDeleteDocument\<close>, when the delete call on the first
  candidate (the identifier itself) answers not-found, the run returns true at once
  and reports a pass with the detail "already gone": that one delete call is the only
  one, and no failure is logged. \<^verbatim>\<open>safeDeletePage\<close> has no not-found branch: a run
  returns true exactly when its last delete call answered 200, and a first delete call
  that throws, whatever its status, a 404 included, is logged as a failure; the run
  then returns false after that one call when \<open>pageId\<close> lacks the published marker,
  and goes on to the draft form when it carries it.
\<close>

theorem not_found_absent_for_media_failure_for_pages:
  assumes "s \<noteq> []"
      and "unpublish_step kind unpublishMethod (JStr s) w = (w1, evs1)"
      and "deleteMethod (JStr s) w1 = (Inl e, w2)"
      and "response_status e = Some 404"
      and prun: "safeDeletePage api pageId pageName pw = (pr, pw', pevs)"
      and pfirst: "snd (hd (page_delete_calls pevs)) = Inl pe"
  shows "(\<exists>evs. safeDeleteDocument (JStr s) kind deleteMethod unpublishMethod w = (Inr True, w2, evs)
           \<and> delete_calls evs = [(JStr s, Inl e)]
           \<and> last evs = LogTest kind True (Detail_already_gone (JStr s))
           \<and> failure_reasons evs = [])
         \<and> pr = Inr (snd (last (page_delete_calls pevs)) = Inr 200)
         \<and> page_failure_messages pevs \<noteq> []
         \<and> hd (page_failure_messages pevs) = err_message pe
         \<and> (\<not> js_includes pageId '':en:published''
              \<longrightarrow> pr = Inr False \<and> length (page_delete_calls pevs) = 1)
         \<and> (js_includes pageId '':en:published''
              \<longrightarrow> 2 \<le> length (page_delete_calls pevs)
                  \<and> fst (page_delete_calls pevs ! 1)
                      = JStr (js_replace pageId '':en:published'' '':en:draft''))"
proof -
  obtain ys where ys: "new_Set (tryIds s) = s # ys"
    using new_Set_tryIds_Cons by blast
  have loop: "delete_loop kind deleteMethod (map JStr (new_Set (tryIds s))) w1 =
      (Some True, w2, [Delete_call (JStr s) (Inl e), LogTest kind True (Detail_already_gone (JStr s))])"
    using assms(3,4) by (simp add: ys)
  have "delete_calls evs1 = [] \<and> failure_reasons evs1 = []"
    using unpublish_step_no_delete [OF assms(2)] by simp
  then have media:
    "\<exists>evs. safeDeleteDocument (JStr s) kind deleteMethod unpublishMethod w = (Inr True, w2, evs)
           \<and> delete_calls evs = [(JStr s, Inl e)]
           \<and> last evs = LogTest kind True (Detail_already_gone (JStr s))
           \<and> failure_reasons evs = []"
    using safeDeleteDocument_run [OF assms(1,2) loop] by simp
  from media page_true_needs_200 [OF prun] page_first_throw [OF prun pfirst] show ?thesis
    by blast
qed

theorem not_found_absent_for_media_failure_for_pages_witness:
  "''abc:en:published'' \<noteq> []
   \<and> answers (Inl not_found) (JStr ''abc:en:published'') () = (Inl not_found, ())
   \<and> response_status not_found = Some 404
   \<and> (\<exists>evs. safeDeleteDocument (JStr ''abc:en:published'') ''image''
                (answers (Inl not_found)) None () = (Inr True, (), evs)
          \<and> delete_calls evs = [(JStr ''abc:en:published'', Inl not_found)]
          \<and> last evs = LogTest ''image'' True (Detail_already_gone (JStr ''abc:en:published''))
          \<and> failure_reasons evs = [])
   \<and> snd (hd (page_delete_calls (snd (snd (safeDeletePage
          \<lparr>pageGetById = get_answers (Inl not_found),
            pageUnpublishById = answers (Inl not_found),
            pageDeleteById = answers (Inl not_found)\<rparr>
          ''abc:en:published'' ''test page'' ()))))) = Inl not_found
   \<and> fst (safeDeletePage
          \<lparr>pageGetById = get_answers (Inl not_found),
            pageUnpublishById = answers (Inl not_found),
            pageDeleteById = answers (Inl not_found)\<rparr>
          ''abc:en:published'' ''test page'' ()) = Inr False
   \<and> fst (page_delete_calls (snd (snd (safeDeletePage
          \<lparr>pageGetById = get_answers (Inl not_found),
            pageUnpublishById = answers (Inl not_found),
            pageDeleteById = answers (Inl not_found)\<rparr>
          ''abc:en:published'' ''test page'' ()))) ! 1) = JStr ''abc:en:draft''"
proof -
  let ?papi = "\<lparr>pageGetById = get_answers (Inl not_found),
            pageUnpublishById = answers (Inl not_found),
            pageDeleteById = answers (Inl not_found)\<rparr> :: unit pages_api"
  let ?P = "safeDeletePage ?papi ''abc:en:published'' ''test page'' ()"
  have h1: "''abc:en:published'' \<noteq> []" by simp
  have h2: "unpublish_step ''image'' None (JStr ''abc:en:published'') () = ((), [])" by simp
  have h3: "answers (Inl not_found) (JStr ''abc:en:published'') () = (Inl not_found, ())"
    by (simp add: answers_def)
  have h4: "response_status not_found = Some 404" by (simp add: not_found_def)
  have h5: "?P = (fst ?P, fst (snd ?P), snd (snd ?P))" by (simp only: prod.collapse)
  have h6: "snd (hd (page_delete_calls (snd (snd ?P)))) = Inl not_found"
    by (simp add: page_run_defs)
  have mark: "js_includes ''abc:en:published'' '':en:published''" by simp
  have last: "snd (last (page_delete_calls (snd (snd ?P)))) = Inl not_found"
    by (simp add: page_run_defs)
  have dr: "js_replace ''abc:en:published'' '':en:published'' '':en:draft'' = ''abc:en:draft''"
    by simp
  from not_found_absent_for_media_failure_for_pages
         [where deleteMethod = "answers (Inl not_found)", OF h1 h2 h3 h4 h5 h6]
       h1 h3 h4 h6 mark last dr
  show ?thesis by auto
qed

section \<open>Success at the first candidate\<close>

text \<open>
  C4. In \<^verbatim>\<open>safeDeleteDocument\<close>, when the delete call on the first candidate
  succeeds with status 200, the run returns true at once, reporting the deletion, and
  the run holds exactly one delete call.
\<close>

theorem success_first_is_single_call:
  assumes "s \<noteq> []"
      and "unpublish_step kind unpublishMethod (JStr s) w = (w1, evs1)"
      and "deleteMethod (JStr s) w1 = (Inr 200, w2)"
  shows "\<exists>evs. safeDeleteDocument (JStr s) kind deleteMethod unpublishMethod w = (Inr True, w2, evs)
           \<and> delete_calls evs = [(JStr s, Inr 200)]
           \<and> last evs = LogTest kind True (Detail_id (JStr s))"
proof -
  obtain ys where ys: "new_Set (tryIds s) = s # ys"
    using new_Set_tryIds_Cons by blast
  have loop: "delete_loop kind deleteMethod (map JStr (new_Set (tryIds s))) w1 =
      (Some True, w2, [Delete_call (JStr s) (Inr 200), LogTest kind True (Detail_id (JStr s))])"
    using assms(3) by (simp add: ys)
  have "delete_calls evs1 = []"
    using unpublish_step_no_delete [OF assms(2)] by simp
  then show ?thesis
    using safeDeleteDocument_run [OF assms(1,2) loop] by simp
qed

theorem success_first_is_single_call_witness:
  "''abc:en:published'' \<noteq> []
   \<and> answers (Inr 200) (JStr ''abc:en:published'') () = (Inr 200, ())
   \<and> (\<exists>evs. safeDeleteDocument (JStr ''abc:en:published'') ''image''
                (answers (Inr 200)) (Some (answers (Inl server_error))) () = (Inr True, (), evs)
          \<and> delete_calls evs = [(JStr ''abc:en:published'', Inr 200)]
          \<and> last evs = LogTest ''image'' True (Detail_id (JStr ''abc:en:published'')))"
proof -
  have h1: "''abc:en:published'' \<noteq> []" by simp
  have h2: "unpublish_step ''image'' (Some (answers (Inl server_error)))
              (JStr ''abc:en:published'') ()
            = ((), [Unpublish_call (JStr ''abc:en:published'') (Inl server_error),
                    Log_unpublish_failed (Status 500)])"
    by (simp add: answers_def server_error_def status_or_def)
  have h3: "answers (Inr 200) (JStr ''abc:en:published'') () = (Inr 200, ())"
    by (simp add: answers_def)
  from success_first_is_single_call [where deleteMethod = "answers (Inr 200)", OF h1 h2 h3] h1 h3
  show ?thesis by blast
qed

section \<open>The unpublish pre-step\<close>

text \<open>
  C5. Whatever the unpublish call answers, a response or a throw of any kind, the
  run goes on to delete: the unpublish call is made once, the first delete call is
  made on the first identifier in the store as unpublish left it, and when that call
  succeeds the run returns true. This holds of \<^verbatim>\<open>safeDeleteDocument\<close> and of
  \<^verbatim>\<open>safeDeletePage\<close>.
\<close>

theorem unpublish_outcome_never_blocks:
  assumes s: "s \<noteq> []"
      and u: "unpublishMethod (JStr s) w = (u, w1)"
      and d: "deleteMethod (JStr s) w1 = (d, w2)"
      and run: "safeDeleteDocument (JStr s) kind deleteMethod (Some unpublishMethod) w = (r, w', evs)"
      and f: "fetch_page_info api pageId pw = (pd, pw1, pevs1)"
      and pu: "pageUnpublishById api (JStr pageId) pw1 = (pu, pw2)"
      and pdel: "pageDeleteById api (fst (choose_deleteId pd pageId)) pw2 = (pdel, pw3)"
      and prun: "safeDeletePage api pageId pageName pw = (pr, pw', pevs)"
  shows "unpublish_calls evs = [(JStr s, u)]
         \<and> delete_calls evs \<noteq> [] \<and> hd (delete_calls evs) = (JStr s, d)
         \<and> (d = Inr 200 \<longrightarrow> r = Inr True)
         \<and> page_unpublish_calls pevs = [(JStr pageId, pu)]
         \<and> page_delete_calls pevs \<noteq> []
         \<and> hd (page_delete_calls pevs) = (fst (choose_deleteId pd pageId), pdel)
         \<and> (pdel = Inr 200 \<longrightarrow> pr = Inr True)"
proof -
  obtain evs1 where pre: "unpublish_step kind (Some unpublishMethod) (JStr s) w = (w1, evs1)"
      and ucalls: "unpublish_calls evs1 = [(JStr s, u)]"
    using unpublish_step_Some [of unpublishMethod "JStr s" w u w1 kind] u by blast
  obtain ys where ys: "new_Set (tryIds s) = s # ys"
    using new_Set_tryIds_Cons by blast
  obtain lr w3 evs2 where loop:
    "delete_loop kind deleteMethod (map JStr (new_Set (tryIds s))) w1 = (lr, w3, evs2)"
    by (cases "delete_loop kind deleteMethod (map JStr (new_Set (tryIds s))) w1") auto
  obtain rest where first: "delete_calls evs2 = (JStr s, d) # rest"
    using delete_loop_first_call [OF d loop [unfolded ys list.map]] by blast
  have ok: "d = Inr 200 \<Longrightarrow> lr = Some True"
    using loop d by (simp add: ys)
  have shape: "(case lr of Some b \<Rightarrow> (Inr b, w3, evs1 @ evs2)
                    | None \<Rightarrow> (Inr False, w3, evs1 @ evs2 @ [Log_may_be_protected kind]))
                 = (r, w', evs)"
    using run [unfolded safeDeleteDocument_run [OF s pre loop]] by simp
  have media: "unpublish_calls evs = [(JStr s, u)]" "delete_calls evs \<noteq> []"
      "hd (delete_calls evs) = (JStr s, d)" "d = Inr 200 \<longrightarrow> r = Inr True"
    using shape ucalls first ok unpublish_step_no_delete [OF pre] delete_loop_no_unpublish [OF loop]
    by (auto split: option.splits)
  obtain pevs2 where ustep: "unpublish_page_step api pageId pageName pw1 = (pw2, pevs2)"
      and pucalls: "page_unpublish_calls pevs2 = [(JStr pageId, pu)]"
    using unpublish_page_step_call [OF pu] by blast
  obtain out1 w4 where dr:
    "pageDeleteById api (JStr (js_replace pageId '':en:published'' '':en:draft'')) pw3 = (out1, w4)"
    by (cases "pageDeleteById api (JStr (js_replace pageId '':en:published'' '':en:draft'')) pw3") auto
  obtain out2 w5 where ba:
    "pageDeleteById api (JStr (js_split_first CHR '':'' pageId)) w4 = (out2, w5)"
    by (cases "pageDeleteById api (JStr (js_split_first CHR '':'' pageId)) w4") auto
  have page: "page_unpublish_calls pevs = [(JStr pageId, pu)]" "page_delete_calls pevs \<noteq> []"
      "hd (page_delete_calls pevs) = (fst (choose_deleteId pd pageId), pdel)"
      "pdel = Inr 200 \<longrightarrow> pr = Inr True"
    using safeDeletePage_cases [OF f ustep pdel dr ba] prun pucalls
    by (cases pdel; auto split: if_splits)+
  from media page show ?thesis by blast
qed

theorem unpublish_outcome_never_blocks_witness:
  "fst (safeDeleteDocument (JStr ''abc:en:published'') ''image''
          (answers (Inr 200)) (Some (answers (Inl server_error))) ()) = Inr True
   \<and> unpublish_calls (snd (snd (safeDeleteDocument (JStr ''abc:en:published'') ''image''
          (answers (Inr 200)) (Some (answers (Inl server_error))) ())))
       = [(JStr ''abc:en:published'', Inl server_error)]
   \<and> fst (safeDeletePage
          \<lparr>pageGetById = get_answers (Inl not_found),
            pageUnpublishById = answers (Inl server_error),
            pageDeleteById = answers (Inr 200)\<rparr>
          ''abc:en:published'' ''test page'' ()) = Inr True
   \<and> page_unpublish_calls (snd (snd (safeDeletePage
          \<lparr>pageGetById = get_answers (Inl not_found),
            pageUnpublishById = answers (Inl server_error),
            pageDeleteById = answers (Inr 200)\<rparr>
          ''abc:en:published'' ''test page'' ())))
       = [(JStr ''abc:en:published'', Inl server_error)]"
proof -
  let ?papi = "\<lparr>pageGetById = get_answers (Inl not_found),
              pageUnpublishById = answers (Inl server_error),
              pageDeleteById = answers (Inr 200)\<rparr> :: unit pages_api"
  let ?R = "safeDeleteDocument (JStr ''abc:en:published'') ''image''
          (answers (Inr 200)) (Some (answers (Inl server_error))) ()"
  let ?F = "fetch_page_info ?papi ''abc:en:published'' ()"
  let ?P = "safeDeletePage ?papi ''abc:en:published'' ''test page'' ()"
  have h1: "''abc:en:published'' \<noteq> []" by simp
  have h2: "answers (Inl server_error) (JStr ''abc:en:published'') () = (Inl server_error, ())"
    by (simp add: answers_def)
  have h3: "answers (Inr 200) (JStr ''abc:en:published'') () = (Inr 200, ())"
    by (simp add: answers_def)
  have h4: "?R = (fst ?R, fst (snd ?R), snd (snd ?R))" by (simp only: prod.collapse)
  have h5: "?F = (None, (), snd (snd ?F))"
    by (simp add: fetch_page_info_def get_answers_def)
  have h6: "pageUnpublishById ?papi (JStr ''abc:en:published'') () = (Inl server_error, ())"
    by (simp add: answers_def)
  have h7: "pageDeleteById ?papi (fst (choose_deleteId None ''abc:en:published'')) ()
              = (Inr 200, ())"
    by (simp add: answers_def)
  have h8: "?P = (fst ?P, fst (snd ?P), snd (snd ?P))" by (simp only: prod.collapse)
  from unpublish_outcome_never_blocks [OF h1 h2 h3 h4 h5 h6 h7 h8] show ?thesis by blast
qed

section \<open>Order of the attempts\<close>

text \<open>
  C6. When the \<^verbatim>\<open>aposDocId\<close> of an item is known, the first delete call of its
  cleanup is made on that \<^verbatim>\<open>aposDocId\<close>: in the media cleanup when the item carries
  a truthy \<^verbatim>\<open>aposDocId\<close>, in the page cleanup when the page could be fetched.
\<close>

theorem aposDocId_tried_first:
  assumes known: "truthy (item_aposDocId it)"
      and run: "cleanup_item api it w = (r, w', evs)"
      and got: "pageGetById papi (JStr pageId) pw = (Inr pd, pw1)"
      and prun: "safeDeletePage papi pageId pageName pw = (pr, pw', pevs)"
  shows "delete_calls evs \<noteq> [] \<and> fst (hd (delete_calls evs)) = item_aposDocId it
         \<and> page_delete_calls pevs \<noteq> []
         \<and> fst (hd (page_delete_calls pevs)) = page_aposDocId pd"
proof -
  obtain s where sdef: "item_aposDocId it = JStr s" and s: "s \<noteq> []"
    using known by (cases "item_aposDocId it") auto
  then have item: "js_or (item_aposDocId it) (item_id it) = JStr s"
    by (simp add: js_or_def)
  obtain ys where ys: "new_Set (tryIds s) = s # ys"
    using new_Set_tryIds_Cons by blast
  obtain w1 evs1 where pre:
    "unpublish_step (kind_name (item_type it)) (Some (unpub_of api (item_type it))) (JStr s) w
       = (w1, evs1)"
    by (cases "unpublish_step (kind_name (item_type it)) (Some (unpub_of api (item_type it))) (JStr s) w") auto
  obtain lr w2 evs2 where loop:
    "delete_loop (kind_name (item_type it)) (del_of api (item_type it))
       (map JStr (new_Set (tryIds s))) w1 = (lr, w2, evs2)"
    by (cases "delete_loop (kind_name (item_type it)) (del_of api (item_type it))
       (map JStr (new_Set (tryIds s))) w1") auto
  obtain d w3 where d: "del_of api (item_type it) (JStr s) w1 = (d, w3)"
    by (cases "del_of api (item_type it) (JStr s) w1") auto
  obtain rest where first: "delete_calls evs2 = (JStr s, d) # rest"
    using delete_loop_first_call [OF d loop [unfolded ys list.map]] by blast
  have "(case lr of Some b \<Rightarrow> (Inr b, w2, evs1 @ evs2)
                    | None \<Rightarrow> (Inr False, w2, evs1 @ evs2 @ [Log_may_be_protected (kind_name (item_type it))]))
                 = (r, w', evs)"
    using run [unfolded cleanup_item_def item safeDeleteDocument_run [OF s pre loop]] by simp
  then have media: "delete_calls evs \<noteq> []" "fst (hd (delete_calls evs)) = item_aposDocId it"
    using first sdef unpublish_step_no_delete [OF pre] by (auto split: option.splits)
  obtain pevs1 where f: "fetch_page_info papi pageId pw = (Some pd, pw1, pevs1)"
    using fetch_page_info_data [OF got] by auto
  have "fst (choose_deleteId (Some pd) pageId) = page_aposDocId pd"
    by (simp add: choose_deleteId_def)
  then have page: "page_delete_calls pevs \<noteq> []"
      "fst (hd (page_delete_calls pevs)) = page_aposDocId pd"
    using page_calls_prefix [OF f prun] by simp_all
  from media page show ?thesis by blast
qed

theorem aposDocId_tried_first_witness:
  "truthy (JStr ''abc'')
   \<and> fst (hd (delete_calls (snd (snd (cleanup_item
          (uniform_media_api (answers (Inr 200)) (answers (Inl server_error)))
          \<lparr>item_id = JStr ''abc:en:published'', item_aposDocId = JStr ''abc'',
            item_type = Image\<rparr> ()))))) = JStr ''abc''
   \<and> fst (hd (page_delete_calls (snd (snd (safeDeletePage
          \<lparr>pageGetById = get_answers
               (Inr \<lparr>page_aposDocId = JStr ''abc'', page_id = JStr ''abc:en:published''\<rparr>),
            pageUnpublishById = answers (Inl server_error),
            pageDeleteById = answers (Inr 200)\<rparr>
          ''abc:en:published'' ''test page'' ()))))) = JStr ''abc''"
proof -
  let ?it = "\<lparr>item_id = JStr ''abc:en:published'', item_aposDocId = JStr ''abc'',
            item_type = Image\<rparr>"
  let ?api = "uniform_media_api (answers (Inr 200)) (answers (Inl server_error)) :: unit media_api"
  let ?pd = "\<lparr>page_aposDocId = JStr ''abc'', page_id = JStr ''abc:en:published''\<rparr>"
  let ?papi = "\<lparr>pageGetById = get_answers (Inr ?pd),
            pageUnpublishById = answers (Inl server_error),
            pageDeleteById = answers (Inr 200)\<rparr> :: unit pages_api"
  let ?R = "cleanup_item ?api ?it ()"
  let ?P = "safeDeletePage ?papi ''abc:en:published'' ''test page'' ()"
  have h1: "truthy (item_aposDocId ?it)" by simp
  have h2: "?R = (fst ?R, fst (snd ?R), snd (snd ?R))" by (simp only: prod.collapse)
  have h3: "pageGetById ?papi (JStr ''abc:en:published'') () = (Inr ?pd, ())"
    by (simp add: get_answers_def)
  have h4: "?P = (fst ?P, fst (snd ?P), snd (snd ?P))" by (simp only: prod.collapse)
  from aposDocId_tried_first [OF h1 h2 h3 h4] show ?thesis by simp
qed

section \<open>Retiring twice\<close>




section \<open>No error leaves the cleanup\<close>

text \<open>
  C8. Whatever the operations answer or throw, \<^verbatim>\<open>safeDeleteDocument\<close> and
  \<^verbatim>\<open>safeDeletePage\<close> return a boolean and no error leaves them; so the cleanup of
  the media tests reaches every created item and returns one result per item.
\<close>

theorem retire_never_throws:
  "(\<exists>b. fst (safeDeleteDocument itemId kind deleteMethod unpublishMethod w) = Inr b)
   \<and> (\<exists>b. fst (safeDeletePage papi pageId pageName pw) = Inr b)
   \<and> (\<exists>bs. fst (cleanup api created mw) = Inr bs \<and> length bs = length created)"
proof -
  have a: "\<exists>b. fst (safeDeleteDocument itemId kind deleteMethod unpublishMethod w) = Inr b"
    using safeDeleteDocument_returns [of itemId kind deleteMethod unpublishMethod w] by auto
  have b: "\<exists>b. fst (safeDeletePage papi pageId pageName pw) = Inr b"
    using safeDeletePage_returns [of papi pageId pageName pw] by auto
  have c: "\<exists>bs. fst (cleanup api created mw) = Inr bs \<and> length bs = length created"
    using cleanup_loop_all [of api "rev created" mw] by (auto simp: cleanup_def)
  from a b c show ?thesis by blast
qed

theorem retire_never_throws_witness:
  "(\<exists>b. fst (safeDeleteDocument (JStr ''q:en:published'') ''file''
             (answers (Inl server_error)) (Some (answers (Inl server_error))) ()) = Inr b)
   \<and> (\<exists>b. fst (safeDeletePage
             \<lparr>pageGetById = get_answers (Inl server_error),
               pageUnpublishById = answers (Inl server_error),
               pageDeleteById = answers (Inl server_error)\<rparr>
             ''q:en:published'' ''test page'' ()) = Inr b)
   \<and> (\<exists>bs. fst (cleanup (uniform_media_api (answers (Inl server_error))
                           (answers (Inl server_error)))
                [\<lparr>item_id = JStr ''a:en:published'', item_aposDocId = JStr ''a'',
                   item_type = Image\<rparr>,
                 \<lparr>item_id = JStr ''b:en:published'', item_aposDocId = JUndefined,
                   item_type = FileTag\<rparr>] ()) = Inr bs
           \<and> length bs = length
                [\<lparr>item_id = JStr ''a:en:published'', item_aposDocId = JStr ''a'',
                   item_type = Image\<rparr>,
                 \<lparr>item_id = JStr ''b:en:published'', item_aposDocId = JUndefined,
                   item_type = FileTag\<rparr>])"
  by (rule retire_never_throws)

section \<open>Alternatives of the page cleanup\<close>

text \<open>
  C9. In \<^verbatim>\<open>safeDeletePage\<close>, for a \<open>pageId\<close> without \<^verbatim>\<open>:en:published\<close> the run
  makes exactly one delete call, and when that call throws the run returns false: the
  draft and bare-id attempts are made only for a \<open>pageId\<close> carrying the marker.
\<close>

theorem alternatives_need_published_marker:
  assumes "\<not> js_includes pageId '':en:published''"
      and "safeDeletePage api pageId pageName w = (r, w', evs)"
  shows "length (page_delete_calls evs) = 1
         \<and> (\<forall>e. snd (hd (page_delete_calls evs)) = Inl e \<longrightarrow> r = Inr False)"
  using page_no_marker [OF assms] .

theorem alternatives_need_published_marker_witness:
  "\<not> js_includes ''id1'' '':en:published''
   \<and> length (page_delete_calls (snd (snd (safeDeletePage
          \<lparr>pageGetById = get_answers (Inl not_found),
            pageUnpublishById = answers (Inl server_error),
            pageDeleteById = answers (Inl not_found)\<rparr>
          ''id1'' ''test page'' ())))) = 1
   \<and> fst (safeDeletePage
          \<lparr>pageGetById = get_answers (Inl not_found),
            pageUnpublishById = answers (Inl server_error),
            pageDeleteById = answers (Inl not_found)\<rparr>
          ''id1'' ''test page'' ()) = Inr False"
proof -
  let ?papi = "\<lparr>pageGetById = get_answers (Inl not_found),
            pageUnpublishById = answers (Inl server_error),
            pageDeleteById = answers (Inl not_found)\<rparr> :: unit pages_api"
  let ?P = "safeDeletePage ?papi ''id1'' ''test page'' ()"
  have h1: "\<not> js_includes ''id1'' '':en:published''" by simp
  have h2: "?P = (fst ?P, fst (snd ?P), snd (snd ?P))" by (simp only: prod.collapse)
  have first: "snd (hd (page_delete_calls (snd (snd ?P)))) = Inl not_found"
    by (simp add: page_run_defs)
  from alternatives_need_published_marker [OF h1 h2] h1 first show ?thesis by blast
qed

section \<open>Falsy identifiers\<close>

text \<open>
  C10. For a falsy \<open>itemId\<close> (undefined, null or the empty string)
  \<^verbatim>\<open>safeDeleteDocument\<close> returns false at once: the store is untouched and the run
  has no event at all, so no unpublish call, no delete call and no log line.
\<close>

theorem falsy_itemId_returns_false:
  "\<not> truthy itemId \<Longrightarrow>
     safeDeleteDocument itemId kind deleteMethod unpublishMethod w = (Inr False, w, [])"
  by (cases itemId) simp_all

theorem falsy_itemId_returns_false_witness:
  "\<not> truthy (JStr [])
   \<and> safeDeleteDocument (JStr []) ''image'' (answers (Inr 200)) (Some (answers (Inr 200))) ()
       = (Inr False, (), [])"
proof -
  have h: "\<not> truthy (JStr [])" by simp
  from falsy_itemId_returns_false
         [OF h, of "''image''" "answers (Inr 200)" "Some (answers (Inr 200))" "()"] h
  show ?thesis by simp
qed

end
